theory Spec2Isabelle
  imports Main "HOL-Library.Word"
begin

unbundle bit_operations_syntax

section \<open>The secret vault character device (vault_driver.c)\<close>

text \<open>
  The driver keeps one static buffer \<^verbatim>\<open>secret_buf[MAX_SECRET]\<close>, its valid length
  \<^verbatim>\<open>secret_len\<close>, the flag \<^verbatim>\<open>is_unlocked\<close> and one kernel timer \<^verbatim>\<open>lock_timer\<close>.
  The model is for an LP64 kernel: \<^verbatim>\<open>size_t\<close>, \<^verbatim>\<open>loff_t\<close> and \<^verbatim>\<open>unsigned long\<close> are
  64-bit words, \<^verbatim>\<open>int\<close> and \<^verbatim>\<open>unsigned int\<close> are 32-bit words. Every file operation
  runs as one step: the mutex serialises the critical sections, so a sequential
  model sees them in the order in which they take the mutex.
\<close>

subsection \<open>Types and constants\<close>

type_synonym byte = "8 word"
type_synonym size_t = "64 word"
type_synonym loff_t = "64 word"
type_synonym jiffies_t = "64 word"

datatype errno = ERESTARTSYS | EACCES | EFAULT | EINVAL

definition MAX_SECRET :: size_t where
  "MAX_SECRET = 4096"

text \<open>\<^verbatim>\<open>VAULT_MAGIC\<close> is the character \<^verbatim>\<open>v\<close>, code 118.\<close>

definition VAULT_MAGIC :: "32 word" where
  "VAULT_MAGIC = 118"

definition VAULT_PIN :: "32 word" where
  "VAULT_PIN = 1337"

text \<open>
  \<^verbatim>\<open>_IOW(type, nr, int)\<close> of asm-generic/ioctl.h: direction \<^verbatim>\<open>_IOC_WRITE = 1\<close> in bits
  30..31, the argument size in bits 16..29, the type in bits 8..15, the number in
  bits 0..7.
\<close>

definition IOC :: "32 word \<Rightarrow> 32 word \<Rightarrow> 32 word \<Rightarrow> 32 word \<Rightarrow> 32 word" where
  "IOC dir type nr sz = push_bit 30 dir OR push_bit 8 type OR nr OR push_bit 16 sz"

definition IOCTL_UNLOCK_VAULT :: "32 word" where
  "IOCTL_UNLOCK_VAULT = IOC 1 VAULT_MAGIC 1 4"

subsection \<open>The state\<close>

text \<open>
  \<open>lock_timer\<close> is the part of \<^verbatim>\<open>struct timer_list\<close> that the driver depends on:
  \<open>None\<close> when the timer is not pending, \<open>Some e\<close> when it is pending and expires at
  jiffies value \<open>e\<close>. There is one timer object, so there is at most one pending
  expiry.
\<close>

record vault =
  secret_buf :: "byte list"
  secret_len :: size_t
  is_unlocked :: "32 word"
  lock_timer :: "jiffies_t option"

text \<open>
  The static initialisers and \<^verbatim>\<open>timer_setup\<close> in \<^verbatim>\<open>secret_init\<close>: a zeroed buffer,
  length 0, locked, no timer pending. (The registration of the character device
  in \<^verbatim>\<open>secret_init\<close> does not touch this state.)
\<close>

definition vault_init :: vault where
  "vault_init = \<lparr>secret_buf = replicate (unat MAX_SECRET) 0, secret_len = 0,
                  is_unlocked = 0, lock_timer = None\<rparr>"

text \<open>The logically valid prefix of the buffer: the stored secret.\<close>

definition secret :: "vault \<Rightarrow> byte list" where
  "secret s = take (unat (secret_len s)) (secret_buf s)"

definition locked :: "vault \<Rightarrow> bool" where
  "locked s \<longleftrightarrow> is_unlocked s = 0"

subsection \<open>Kernel primitives used by the driver\<close>

text \<open>
  User memory behind a \<^verbatim>\<open>__user\<close> pointer is given as the list of bytes that can be
  accessed from that address on (empty for a bad pointer). \<^verbatim>\<open>copy_to_user\<close> and
  \<^verbatim>\<open>copy_from_user\<close> copy as far as the user memory is accessible and return the
  number of bytes that were not copied; \<^verbatim>\<open>copy_from_user\<close> zero-fills the part of
  the kernel destination it could not fill.
\<close>

definition copy_to_user :: "byte list \<Rightarrow> byte list \<Rightarrow> nat \<Rightarrow> byte list \<times> nat" where
  "copy_to_user ubuf src n =
     (let k = min n (length ubuf) in (take k src @ drop k ubuf, n - k))"

definition copy_from_user :: "byte list \<Rightarrow> byte list \<Rightarrow> nat \<Rightarrow> byte list \<times> nat" where
  "copy_from_user dst ubuf n =
     (let k = min n (length ubuf)
      in (take k ubuf @ replicate (n - k) 0 @ drop n dst, n - k))"

text \<open>
  \<^verbatim>\<open>msecs_to_jiffies\<close> rounds the duration up to whole ticks of the kernel's tick
  rate \<open>HZ\<close> (a build-time constant of the kernel, a parameter here).
\<close>

definition msecs_to_jiffies :: "nat \<Rightarrow> nat \<Rightarrow> jiffies_t" where
  "msecs_to_jiffies HZ m = of_nat ((m * HZ + 999) div 1000)"

text \<open>\<^verbatim>\<open>time_after_eq(a, b)\<close> is \<^verbatim>\<open>(long)((a) - (b)) >= 0\<close>.\<close>

definition time_after_eq :: "jiffies_t \<Rightarrow> jiffies_t \<Rightarrow> bool" where
  "time_after_eq a b \<longleftrightarrow> 0 \<le> sint (a - b)"

text \<open>
  \<^verbatim>\<open>mod_timer\<close> (re)schedules the one timer: pending or not before, it is pending
  afterwards with the new expiry only. \<^verbatim>\<open>timer_delete_sync\<close> removes a pending
  schedule and is harmless when nothing is pending.
\<close>

definition mod_timer :: "vault \<Rightarrow> jiffies_t \<Rightarrow> vault" where
  "mod_timer s expires = s\<lparr>lock_timer := Some expires\<rparr>"

definition timer_delete_sync :: "vault \<Rightarrow> vault" where
  "timer_delete_sync s = s\<lparr>lock_timer := None\<rparr>"

subsection \<open>The driver's functions\<close>

definition auto_lock_callback :: "vault \<Rightarrow> vault" where
  "auto_lock_callback s = s\<lparr>is_unlocked := 0\<rparr>"

text \<open>
  The kernel's timer interrupt at jiffies value \<open>now\<close>: a pending timer whose expiry
  has been reached is taken off the schedule and its callback runs. This is an
  expiry that runs to its end with no file operation in between; its two halves
  are modelled apart further down (\<open>expire_timer\<close>, \<open>run_callback\<close>).
\<close>

definition run_timers :: "vault \<Rightarrow> jiffies_t \<Rightarrow> vault" where
  "run_timers s now =
     (case lock_timer s of
        None \<Rightarrow> s
      | Some e \<Rightarrow> if time_after_eq now e
                  then auto_lock_callback (s\<lparr>lock_timer := None\<rparr>) else s)"

text \<open>
  What a \<^verbatim>\<open>read\<close> or \<^verbatim>\<open>write\<close> call leaves behind: the return value (a negative
  errno or a byte count), the driver's state, the user memory at \<^verbatim>\<open>buf\<close> and the
  value of \<^verbatim>\<open>*ppos\<close>.
\<close>

record rw_result =
  retval :: "errno + size_t"
  state :: vault
  user_mem :: "byte list"
  fpos :: loff_t

text \<open>
  \<open>my_read s interrupted buf count ppos\<close>: \<open>interrupted\<close> says that
  \<^verbatim>\<open>mutex_lock_interruptible\<close> returned non-zero, \<open>buf\<close> is the user memory at the
  destination pointer, \<open>ppos\<close> the value of \<^verbatim>\<open>*ppos\<close>. \<^verbatim>\<open>*ppos >= secret_len\<close>
  compares as unsigned 64-bit values, which is the order of words.
\<close>

definition my_read :: "vault \<Rightarrow> bool \<Rightarrow> byte list \<Rightarrow> size_t \<Rightarrow> loff_t \<Rightarrow> rw_result" where
  "my_read s interrupted buf count ppos =
     (if interrupted
      then \<lparr>retval = Inl ERESTARTSYS, state = s, user_mem = buf, fpos = ppos\<rparr>
      else if is_unlocked s = 0
      then \<lparr>retval = Inl EACCES, state = s, user_mem = buf, fpos = ppos\<rparr>
      else if ppos \<ge> secret_len s
      then \<lparr>retval = Inr 0, state = s, user_mem = buf, fpos = ppos\<rparr>
      else
        let to_copy = min count (secret_len s - ppos);
            (buf', ret) = copy_to_user buf (drop (unat ppos) (secret_buf s)) (unat to_copy)
        in if ret \<noteq> 0
           then \<lparr>retval = Inl EFAULT, state = s, user_mem = buf', fpos = ppos\<rparr>
           else \<lparr>retval = Inr to_copy, state = s, user_mem = buf', fpos = ppos + to_copy\<rparr>)"

text \<open>\<open>my_write s interrupted buf count ppos\<close>: \<open>buf\<close> is the user memory at the source pointer.\<close>

definition my_write :: "vault \<Rightarrow> bool \<Rightarrow> byte list \<Rightarrow> size_t \<Rightarrow> loff_t \<Rightarrow> rw_result" where
  "my_write s interrupted buf count ppos =
     (if interrupted
      then \<lparr>retval = Inl ERESTARTSYS, state = s, user_mem = buf, fpos = ppos\<rparr>
      else if is_unlocked s = 0
      then \<lparr>retval = Inl EACCES, state = s, user_mem = buf, fpos = ppos\<rparr>
      else
        let to_copy = min count MAX_SECRET;
            (sb, ret) = copy_from_user (secret_buf s) buf (unat to_copy)
        in if ret \<noteq> 0
           then \<lparr>retval = Inl EFAULT, state = s\<lparr>secret_buf := sb\<rparr>, user_mem = buf,
                 fpos = ppos\<rparr>
           else \<lparr>retval = Inr to_copy, state = s\<lparr>secret_buf := sb, secret_len := to_copy\<rparr>,
                 user_mem = buf, fpos = 0\<rparr>)"

text \<open>
  \<open>my_ioctl HZ s cmd arg jiffies\<close>: \<open>arg\<close> is the \<^verbatim>\<open>int\<close> behind the user pointer,
  \<open>None\<close> when \<^verbatim>\<open>copy_from_user\<close> cannot read it; \<open>jiffies\<close> is the kernel's tick
  counter at the call.
\<close>

definition my_ioctl ::
  "nat \<Rightarrow> vault \<Rightarrow> 32 word \<Rightarrow> 32 word option \<Rightarrow> jiffies_t \<Rightarrow> (errno + 64 word) \<times> vault" where
  "my_ioctl HZ s cmd arg jiffies =
     (if cmd = IOCTL_UNLOCK_VAULT then
        (case arg of
           None \<Rightarrow> (Inl EFAULT, s)
         | Some user_pin \<Rightarrow>
             if user_pin = VAULT_PIN
             then (Inr 0, mod_timer (s\<lparr>is_unlocked := 1\<rparr>)
                                    (jiffies + msecs_to_jiffies HZ 30000))
             else (Inl EACCES, s))
      else (Inl EINVAL, s))"

text \<open>
  \<^verbatim>\<open>secret_exit\<close>: the timer is deleted; the rest of the function unregisters the
  device and does not touch the vault's state.
\<close>

definition secret_exit :: "vault \<Rightarrow> vault" where
  "secret_exit s = timer_delete_sync s"

subsection \<open>Sequences of operations\<close>

datatype event =
    Read bool "byte list" size_t loff_t
  | Write bool "byte list" size_t loff_t
  | Ioctl "32 word" "32 word option" jiffies_t
  | Timer jiffies_t
  | Exit

fun step :: "nat \<Rightarrow> vault \<Rightarrow> event \<Rightarrow> vault" where
  "step HZ s (Read i buf count ppos) = state (my_read s i buf count ppos)"
| "step HZ s (Write i buf count ppos) = state (my_write s i buf count ppos)"
| "step HZ s (Ioctl cmd arg now) = snd (my_ioctl HZ s cmd arg now)"
| "step HZ s (Timer now) = run_timers s now"
| "step HZ s Exit = secret_exit s"

definition run :: "nat \<Rightarrow> vault \<Rightarrow> event list \<Rightarrow> vault" where
  "run HZ s evs = foldl (step HZ) s evs"

text \<open>The events that only act on the lock state: a timer interrupt or an ioctl.\<close>

fun lock_event :: "event \<Rightarrow> bool" where
  "lock_event (Ioctl cmd arg now) = True"
| "lock_event (Timer now) = True"
| "lock_event (Read i buf count ppos) = False"
| "lock_event (Write i buf count ppos) = False"
| "lock_event Exit = False"

subsection \<open>Vocabulary of the properties\<close>

definition succeeded :: "errno + size_t \<Rightarrow> bool" where
  "succeeded r = (case r of Inl e \<Rightarrow> False | Inr n \<Rightarrow> True)"

text \<open>The bytes a read delivered: as many of the user memory as the return value says.\<close>

definition returned_bytes :: "rw_result \<Rightarrow> byte list" where
  "returned_bytes res =
     (case retval res of Inl e \<Rightarrow> [] | Inr n \<Rightarrow> take (unat n) (user_mem res))"

text \<open>
  The array has \<^verbatim>\<open>MAX_SECRET\<close> elements and the length never exceeds it.
\<close>

definition vault_wf :: "vault \<Rightarrow> bool" where
  "vault_wf s \<longleftrightarrow> length (secret_buf s) = unat MAX_SECRET \<and> secret_len s \<le> MAX_SECRET"

text \<open>
  When the copy of a call hits inaccessible user memory: a read that has bytes to
  deliver and a destination with less room, a write whose source holds fewer
  than the bytes to take.
\<close>

definition read_faults :: "vault \<Rightarrow> byte list \<Rightarrow> size_t \<Rightarrow> loff_t \<Rightarrow> bool" where
  "read_faults s buf count ppos \<longleftrightarrow>
     ppos < secret_len s \<and> length buf < unat (min count (secret_len s - ppos))"

definition write_faults :: "byte list \<Rightarrow> size_t \<Rightarrow> bool" where
  "write_faults buf count \<longleftrightarrow> length buf < unat (min count MAX_SECRET)"

text \<open>The lock flag and the timer agree: locked exactly when no expiry is pending.\<close>

definition lock_inv :: "vault \<Rightarrow> bool" where
  "lock_inv s \<longleftrightarrow> (locked s \<longleftrightarrow> lock_timer s = None)"

text \<open>The events other than a write.\<close>

fun non_write_event :: "event \<Rightarrow> bool" where
  "non_write_event (Write i buf count ppos) = False"
| "non_write_event (Read i buf count ppos) = True"
| "non_write_event (Ioctl cmd arg now) = True"
| "non_write_event (Timer now) = True"
| "non_write_event Exit = True"

subsection \<open>A timer expiry in two halves\<close>

text \<open>
  \<open>run_timers\<close> is a timer expiry that runs to its end before anything else
  happens. In the kernel it has two halves. The timer core takes the expired
  timer off the schedule, under the lock of the timer base and not under
  \<^verbatim>\<open>secret_mutex\<close>; after that \<^verbatim>\<open>auto_lock_callback\<close> runs and takes \<^verbatim>\<open>secret_mutex\<close>
  itself. A file operation can run between the two. The finer model below keeps,
  next to the driver's state, the number of callbacks that have been started by
  the timer core and have not yet run, and lets file operations, expiries and
  callbacks come in any order.
\<close>

datatype action =
    ARead bool "byte list" size_t loff_t
  | AWrite bool "byte list" size_t loff_t
  | AIoctl "32 word" "32 word option" jiffies_t
  | AExpire jiffies_t
  | ACallback

definition expire_timer :: "vault \<times> nat \<Rightarrow> jiffies_t \<Rightarrow> vault \<times> nat" where
  "expire_timer \<sigma> now =
     (case lock_timer (fst \<sigma>) of
        None \<Rightarrow> \<sigma>
      | Some e \<Rightarrow> if time_after_eq now e
                  then ((fst \<sigma>)\<lparr>lock_timer := None\<rparr>, Suc (snd \<sigma>)) else \<sigma>)"

definition run_callback :: "vault \<times> nat \<Rightarrow> vault \<times> nat" where
  "run_callback \<sigma> =
     (if snd \<sigma> = 0 then \<sigma> else (auto_lock_callback (fst \<sigma>), snd \<sigma> - 1))"

fun act :: "nat \<Rightarrow> vault \<times> nat \<Rightarrow> action \<Rightarrow> vault \<times> nat" where
  "act HZ \<sigma> (ARead i buf count ppos) = (state (my_read (fst \<sigma>) i buf count ppos), snd \<sigma>)"
| "act HZ \<sigma> (AWrite i buf count ppos) = (state (my_write (fst \<sigma>) i buf count ppos), snd \<sigma>)"
| "act HZ \<sigma> (AIoctl cmd arg now) = (snd (my_ioctl HZ (fst \<sigma>) cmd arg now), snd \<sigma>)"
| "act HZ \<sigma> (AExpire now) = expire_timer \<sigma> now"
| "act HZ \<sigma> ACallback = run_callback \<sigma>"

definition interleave :: "nat \<Rightarrow> vault \<times> nat \<Rightarrow> action list \<Rightarrow> vault \<times> nat" where
  "interleave HZ \<sigma> acts = foldl (act HZ) \<sigma> acts"

text \<open>An unlocked vault has an expiry pending or a callback still to run.\<close>

definition relock_due :: "vault \<times> nat \<Rightarrow> bool" where
  "relock_due \<sigma> \<longleftrightarrow> locked (fst \<sigma>) \<or> lock_timer (fst \<sigma>) \<noteq> None \<or> 0 < snd \<sigma>"

subsection \<open>The scenario of the specification\<close>

text \<open>
  Start locked, unlock with the right PIN at jiffies 100 on a kernel with
  \<open>HZ = 250\<close>, then write the five bytes of "hello".
\<close>

definition hello :: "byte list" where
  "hello = [104, 101, 108, 108, 111]"

definition unlocked_vault :: vault where
  "unlocked_vault = snd (my_ioctl 250 vault_init IOCTL_UNLOCK_VAULT (Some VAULT_PIN) 100)"

definition hello_vault :: vault where
  "hello_vault = state (my_write unlocked_vault False hello 5 0)"

section \<open>Basic facts\<close>

lemma unat_MAX_SECRET: "unat MAX_SECRET = 4096"
  by (simp add: MAX_SECRET_def)

lemma ioctl_cmd_value: "IOCTL_UNLOCK_VAULT = 0x40047601"
  by (simp add: IOCTL_UNLOCK_VAULT_def IOC_def VAULT_MAGIC_def)

lemma lock_duration: "msecs_to_jiffies HZ 30000 = of_nat (30 * HZ)"
proof -
  have "(30000 * HZ + 999) div 1000 = 30 * HZ" by presburger
  then show ?thesis by (simp add: msecs_to_jiffies_def)
qed

lemma unat_min_word: "unat (min a b) = min (unat a) (unat (b :: 'a :: len word))"
  by (simp add: min_def word_le_nat_alt)

lemma take_drop_take: "p + n \<le> l \<Longrightarrow> take n (drop p (take l xs)) = take n (drop p xs)"
  by (simp add: drop_take min_absorb1)

subsection \<open>The ioctl and the timer\<close>

lemma my_ioctl_unlock:
  "my_ioctl HZ s IOCTL_UNLOCK_VAULT (Some VAULT_PIN) t
     = (Inr 0, s\<lparr>is_unlocked := 1, lock_timer := Some (t + of_nat (30 * HZ))\<rparr>)"
  by (simp add: my_ioctl_def mod_timer_def lock_duration)

lemma my_ioctl_frame:
  "secret_buf (snd (my_ioctl HZ s cmd arg now)) = secret_buf s"
  "secret_len (snd (my_ioctl HZ s cmd arg now)) = secret_len s"
  by (simp_all add: my_ioctl_def mod_timer_def split: option.splits)

lemma run_timers_frame:
  "secret_buf (run_timers s now) = secret_buf s"
  "secret_len (run_timers s now) = secret_len s"
  by (simp_all add: run_timers_def auto_lock_callback_def split: option.splits)

subsection \<open>Reads and writes in closed form\<close>

lemma state_my_read: "state (my_read s i buf count ppos) = s"
  by (simp add: my_read_def Let_def split: prod.splits)

lemma my_write_lock_fields:
  "is_unlocked (state (my_write s i buf count ppos)) = is_unlocked s"
  "lock_timer (state (my_write s i buf count ppos)) = lock_timer s"
  by (simp_all add: my_write_def Let_def split: prod.splits)

lemma my_read_ok:
  assumes "\<not> locked s" "ppos < secret_len s"
    and "unat (min count (secret_len s - ppos)) \<le> length buf"
  shows "my_read s False buf count ppos =
     \<lparr>retval = Inr (min count (secret_len s - ppos)), state = s,
      user_mem = take (unat (min count (secret_len s - ppos))) (drop (unat ppos) (secret_buf s))
                 @ drop (unat (min count (secret_len s - ppos))) buf,
      fpos = ppos + min count (secret_len s - ppos)\<rparr>"
proof -
  from assms(2) have "\<not> secret_len s \<le> ppos" by simp
  with assms(1,3) show ?thesis
    by (simp add: my_read_def locked_def copy_to_user_def Let_def min_absorb1)
qed

lemma my_read_eof:
  assumes "\<not> locked s" "secret_len s \<le> ppos"
  shows "my_read s False buf count ppos
           = \<lparr>retval = Inr 0, state = s, user_mem = buf, fpos = ppos\<rparr>"
  using assms by (simp add: my_read_def locked_def)

lemma my_write_ok:
  assumes "\<not> locked s" "unat (min count MAX_SECRET) \<le> length buf"
  shows "my_write s False buf count ppos =
     \<lparr>retval = Inr (min count MAX_SECRET),
      state = s\<lparr>secret_buf := take (unat (min count MAX_SECRET)) buf
                               @ drop (unat (min count MAX_SECRET)) (secret_buf s),
                secret_len := min count MAX_SECRET\<rparr>,
      user_mem = buf, fpos = 0\<rparr>"
  using assms by (simp add: my_write_def locked_def copy_from_user_def Let_def min_absorb1)

lemma slice_len:
  assumes "vault_wf s" "ppos < secret_len s"
  shows "unat (min count (secret_len s - ppos))
           = min (unat count) (unat (secret_len s) - unat ppos)"
    and "unat ppos + unat (min count (secret_len s - ppos)) \<le> unat (secret_len s)"
    and "unat (secret_len s) \<le> length (secret_buf s)"
proof -
  from assms(2) have le: "ppos \<le> secret_len s" by simp
  then have sub: "unat (secret_len s - ppos) = unat (secret_len s) - unat ppos"
    by (simp add: unat_sub)
  show "unat (min count (secret_len s - ppos))
          = min (unat count) (unat (secret_len s) - unat ppos)"
    by (simp add: unat_min_word sub)
  from le have "unat ppos \<le> unat (secret_len s)" by (simp add: word_le_nat_alt)
  then show "unat ppos + unat (min count (secret_len s - ppos)) \<le> unat (secret_len s)"
    by (simp add: unat_min_word sub)
  from assms(1) show "unat (secret_len s) \<le> length (secret_buf s)"
    by (simp add: vault_wf_def word_le_nat_alt)
qed

lemma read_slice:
  assumes "\<not> locked s" "vault_wf s" "unat count \<le> length buf"
  shows "retval (my_read s False buf count ppos)
           = Inr (if secret_len s \<le> ppos then 0 else min count (secret_len s - ppos))
       \<and> returned_bytes (my_read s False buf count ppos)
           = (if secret_len s \<le> ppos then []
              else take (min (unat count) (unat (secret_len s) - unat ppos))
                     (drop (unat ppos) (secret s)))
       \<and> length (returned_bytes (my_read s False buf count ppos))
           = (if secret_len s \<le> ppos then 0
              else min (unat count) (unat (secret_len s) - unat ppos))"
proof (cases "secret_len s \<le> ppos")
  case True
  with assms show ?thesis by (simp add: my_read_eof returned_bytes_def)
next
  case False
  then have lt: "ppos < secret_len s" by simp
  let ?n = "min count (secret_len s - ppos)"
  note sl = slice_len [OF assms(2) lt]
  have fits: "unat ?n \<le> length buf" using assms(3) sl(1) by simp
  have rd: "my_read s False buf count ppos =
     \<lparr>retval = Inr ?n, state = s,
      user_mem = take (unat ?n) (drop (unat ppos) (secret_buf s)) @ drop (unat ?n) buf,
      fpos = ppos + ?n\<rparr>"
    by (rule my_read_ok [OF assms(1) lt fits])
  have len: "length (take (unat ?n) (drop (unat ppos) (secret_buf s))) = unat ?n"
    using sl by simp
  have bytes: "returned_bytes (my_read s False buf count ppos)
                 = take (unat ?n) (drop (unat ppos) (secret_buf s))"
    using len by (simp add: rd returned_bytes_def)
  have sec: "take (unat ?n) (drop (unat ppos) (secret s))
               = take (unat ?n) (drop (unat ppos) (secret_buf s))"
    unfolding secret_def using sl(2) by (rule take_drop_take)
  show ?thesis using False bytes sec len sl(1) by (simp add: rd)
qed

subsection \<open>The buffer keeps its size\<close>

lemma length_copy_from_user:
  "n \<le> length dst \<Longrightarrow> length (fst (copy_from_user dst ubuf n)) = length dst"
  by (simp add: copy_from_user_def Let_def)

lemma vault_wf_my_write:
  assumes wf: "vault_wf s"
  shows "vault_wf (state (my_write s i buf count ppos))"
proof -
  let ?n = "unat (min count MAX_SECRET)"
  have "?n \<le> length (secret_buf s)"
    using wf by (simp add: unat_min_word unat_MAX_SECRET vault_wf_def)
  then have len: "length (fst (copy_from_user (secret_buf s) buf ?n)) = unat MAX_SECRET"
    using wf by (simp add: length_copy_from_user vault_wf_def)
  show ?thesis
    using wf len by (simp add: my_write_def vault_wf_def Let_def split_beta)
qed

lemma vault_wf_step: "vault_wf s \<Longrightarrow> vault_wf (step HZ s e)"
  by (cases e)
     (simp_all add: state_my_read vault_wf_my_write,
      simp_all add: vault_wf_def my_ioctl_frame run_timers_frame secret_exit_def
        timer_delete_sync_def)

lemma vault_wf_run: "vault_wf s \<Longrightarrow> vault_wf (run HZ s evs)"
  unfolding run_def by (induction evs arbitrary: s) (simp_all add: vault_wf_step)

lemma vault_wf_init: "vault_wf vault_init"
  by (simp add: vault_wf_def vault_init_def MAX_SECRET_def)

subsection \<open>The lock flag and the timer along a run\<close>

lemma lock_inv_init: "lock_inv vault_init"
  by (simp add: lock_inv_def locked_def vault_init_def)

lemma lock_inv_step:
  assumes "lock_inv s" "e \<noteq> Exit"
  shows "lock_inv (step HZ s e)"
proof (cases e)
  case (Read i buf count ppos)
  with assms show ?thesis by (simp add: state_my_read)
next
  case (Write i buf count ppos)
  with assms show ?thesis by (simp add: lock_inv_def locked_def my_write_lock_fields)
next
  case (Ioctl cmd arg now)
  with assms show ?thesis
    by (simp add: lock_inv_def locked_def my_ioctl_def mod_timer_def split: option.splits)
next
  case (Timer now)
  with assms show ?thesis
    by (simp add: lock_inv_def locked_def run_timers_def auto_lock_callback_def
        split: option.splits)
next
  case Exit
  with assms show ?thesis by simp
qed

lemma lock_inv_run:
  "lock_inv s \<Longrightarrow> Exit \<notin> set evs \<Longrightarrow> lock_inv (run HZ s evs)"
  unfolding run_def
proof (induction evs arbitrary: s)
  case Nil
  then show ?case by simp
next
  case (Cons e evs)
  from Cons.prems have "e \<noteq> Exit" and rest: "Exit \<notin> set evs" by auto
  with Cons.prems(1) have "lock_inv (step HZ s e)" by (simp add: lock_inv_step)
  from Cons.IH [OF this rest] show ?case by simp
qed

lemma step_lock_event_frame:
  "lock_event e \<Longrightarrow>
     secret_buf (step HZ s e) = secret_buf s \<and> secret_len (step HZ s e) = secret_len s"
  by (cases e) (simp_all add: my_ioctl_frame run_timers_frame)

lemma run_lock_events_frame:
  "\<forall>e\<in>set evs. lock_event e \<Longrightarrow>
     secret_buf (run HZ s evs) = secret_buf s \<and> secret_len (run HZ s evs) = secret_len s"
  unfolding run_def
  by (induction evs arbitrary: s) (simp_all add: step_lock_event_frame)

subsection \<open>Reads in states that agree on the secret and the lock\<close>

lemma my_read_cong:
  assumes "secret_buf s' = secret_buf s" "secret_len s' = secret_len s"
    and "locked s' \<longleftrightarrow> locked s"
  shows "my_read s' i buf count ppos = (my_read s i buf count ppos)\<lparr>state := s'\<rparr>"
proof (cases "is_unlocked s = 0")
  case True
  with assms(3) have "is_unlocked s' = 0" by (simp add: locked_def)
  with True show ?thesis by (simp add: my_read_def)
next
  case False
  with assms(3) have "is_unlocked s' \<noteq> 0" by (simp add: locked_def)
  with False show ?thesis
    by (simp add: my_read_def assms(1,2) Let_def split: prod.splits)
qed

lemma step_non_write_frame:
  "non_write_event e \<Longrightarrow>
     secret_buf (step HZ s e) = secret_buf s \<and> secret_len (step HZ s e) = secret_len s"
  by (cases e)
     (simp_all add: state_my_read my_ioctl_frame run_timers_frame secret_exit_def
        timer_delete_sync_def)

lemma run_non_write_frame:
  "list_all non_write_event evs \<Longrightarrow>
     secret_buf (run HZ s evs) = secret_buf s \<and> secret_len (run HZ s evs) = secret_len s"
  unfolding run_def
  by (induction evs arbitrary: s) (simp_all add: step_non_write_frame)

subsection \<open>A timer expiry in two halves\<close>

lemma expire_then_callback:
  "run_callback (expire_timer (s, 0) now) = (run_timers s now, 0)"
  by (simp add: run_callback_def expire_timer_def run_timers_def split: option.splits)

lemma relock_due_init: "relock_due (vault_init, 0)"
  by (simp add: relock_due_def locked_def vault_init_def)

lemma relock_due_act: "relock_due \<sigma> \<Longrightarrow> relock_due (act HZ \<sigma> a)"
proof (cases a)
  case (ARead i buf count ppos)
  assume "relock_due \<sigma>"
  with ARead show ?thesis by (simp add: relock_due_def state_my_read)
next
  case (AWrite i buf count ppos)
  assume "relock_due \<sigma>"
  with AWrite show ?thesis by (simp add: relock_due_def locked_def my_write_lock_fields)
next
  case (AIoctl cmd arg now)
  assume "relock_due \<sigma>"
  with AIoctl show ?thesis
    by (auto simp: relock_due_def locked_def my_ioctl_def mod_timer_def split: option.splits)
next
  case (AExpire now)
  assume "relock_due \<sigma>"
  with AExpire show ?thesis
    by (auto simp: relock_due_def locked_def expire_timer_def split: option.splits)
next
  case ACallback
  assume "relock_due \<sigma>"
  with ACallback show ?thesis
    by (auto simp: relock_due_def locked_def run_callback_def auto_lock_callback_def)
qed

lemma relock_due_interleave: "relock_due \<sigma> \<Longrightarrow> relock_due (interleave HZ \<sigma> acts)"
  unfolding interleave_def
  by (induction acts arbitrary: \<sigma>) (simp_all add: relock_due_act)

text \<open>
  An unlock that falls between the two halves of an expiry: the timer core has
  taken the timer off the schedule, the unlock sets the flag and arms the timer
  again, and then the callback of the old expiry clears the flag. The vault is
  locked with an expiry pending.
\<close>

lemma unlock_between_expiry_and_callback:
  "locked (fst (interleave 250 (vault_init, 0)
      [AIoctl IOCTL_UNLOCK_VAULT (Some VAULT_PIN) 100, AExpire 7600,
       AIoctl IOCTL_UNLOCK_VAULT (Some VAULT_PIN) 7600, ACallback]))
   \<and> lock_timer (fst (interleave 250 (vault_init, 0)
      [AIoctl IOCTL_UNLOCK_VAULT (Some VAULT_PIN) 100, AExpire 7600,
       AIoctl IOCTL_UNLOCK_VAULT (Some VAULT_PIN) 7600, ACallback])) = Some 15100"
  by (simp add: interleave_def my_ioctl_unlock expire_timer_def time_after_eq_def
      run_callback_def auto_lock_callback_def locked_def)

subsection \<open>The states of the scenario\<close>

lemma unlocked_vault_eq:
  "unlocked_vault = \<lparr>secret_buf = replicate 4096 0, secret_len = 0, is_unlocked = 1,
                      lock_timer = Some 7600\<rparr>"
  by (simp add: unlocked_vault_def my_ioctl_def mod_timer_def vault_init_def MAX_SECRET_def
      lock_duration)

lemma hello_vault_eq:
  "hello_vault = \<lparr>secret_buf = hello @ replicate 4091 0, secret_len = 5, is_unlocked = 1,
                   lock_timer = Some 7600\<rparr>"
  by (simp add: hello_vault_def unlocked_vault_eq my_write_def copy_from_user_def
      MAX_SECRET_def hello_def)

lemma secret_hello_vault: "secret hello_vault = hello"
  by (simp add: hello_vault_eq secret_def hello_def)

lemma wf_hello_vault: "vault_wf hello_vault"
  by (simp add: hello_vault_eq vault_wf_def MAX_SECRET_def hello_def)

lemma unlocked_vault_unlocked: "\<not> locked unlocked_vault"
  by (simp add: unlocked_vault_eq locked_def)

lemma hello_vault_unlocked: "\<not> locked hello_vault"
  by (simp add: hello_vault_eq locked_def)

section \<open>The access gate\<close>

text \<open>
  C1 (as amended). For every call to read or write that acquires the mutex: the
  call fails with \<^verbatim>\<open>-EACCES\<close> (access denied) if and only if the vault is locked
  at that moment, and then nothing is copied: the state, the user memory and the
  file position are what they were. When the vault is unlocked the call succeeds
  (with data, possibly empty, or a count of bytes written) if and only if the
  copy to or from the caller's buffer does not fault; when it faults the call
  fails with \<^verbatim>\<open>-EFAULT\<close>. So a call succeeds exactly when the vault is unlocked
  and the caller's buffer is accessible.
\<close>

theorem access_gate:
  "((my_read s False buf count ppos
       = \<lparr>retval = Inl EACCES, state = s, user_mem = buf, fpos = ppos\<rparr>) \<longleftrightarrow> locked s)
   \<and> ((my_write s False buf count ppos
       = \<lparr>retval = Inl EACCES, state = s, user_mem = buf, fpos = ppos\<rparr>) \<longleftrightarrow> locked s)
   \<and> ((retval (my_read s False buf count ppos) = Inl EACCES) \<longleftrightarrow> locked s)
   \<and> ((retval (my_write s False buf count ppos) = Inl EACCES) \<longleftrightarrow> locked s)
   \<and> (succeeded (retval (my_read s False buf count ppos))
        \<longleftrightarrow> \<not> locked s \<and> \<not> read_faults s buf count ppos)
   \<and> (succeeded (retval (my_write s False buf count ppos))
        \<longleftrightarrow> \<not> locked s \<and> \<not> write_faults buf count)
   \<and> ((retval (my_read s False buf count ppos) = Inl EFAULT)
        \<longleftrightarrow> \<not> locked s \<and> read_faults s buf count ppos)
   \<and> ((retval (my_write s False buf count ppos) = Inl EFAULT)
        \<longleftrightarrow> \<not> locked s \<and> write_faults buf count)"
proof -
  have r1: "(my_read s False buf count ppos
       = \<lparr>retval = Inl EACCES, state = s, user_mem = buf, fpos = ppos\<rparr>) \<longleftrightarrow> locked s"
    by (auto simp: my_read_def locked_def Let_def split: prod.splits)
  have w1: "(my_write s False buf count ppos
       = \<lparr>retval = Inl EACCES, state = s, user_mem = buf, fpos = ppos\<rparr>) \<longleftrightarrow> locked s"
    by (auto simp: my_write_def locked_def Let_def split: prod.splits)
  have r2: "(retval (my_read s False buf count ppos) = Inl EACCES) \<longleftrightarrow> locked s"
    by (auto simp: my_read_def locked_def Let_def split: prod.splits)
  have w2: "(retval (my_write s False buf count ppos) = Inl EACCES) \<longleftrightarrow> locked s"
    by (auto simp: my_write_def locked_def Let_def split: prod.splits)
  have r3: "succeeded (retval (my_read s False buf count ppos))
        \<longleftrightarrow> \<not> locked s \<and> \<not> read_faults s buf count ppos"
    by (auto simp: my_read_def locked_def Let_def succeeded_def read_faults_def
        copy_to_user_def)
  have w3: "succeeded (retval (my_write s False buf count ppos))
        \<longleftrightarrow> \<not> locked s \<and> \<not> write_faults buf count"
    by (auto simp: my_write_def locked_def Let_def succeeded_def write_faults_def
        copy_from_user_def)
  have r4: "(retval (my_read s False buf count ppos) = Inl EFAULT)
        \<longleftrightarrow> \<not> locked s \<and> read_faults s buf count ppos"
    by (auto simp: my_read_def locked_def Let_def read_faults_def copy_to_user_def)
  have w4: "(retval (my_write s False buf count ppos) = Inl EFAULT)
        \<longleftrightarrow> \<not> locked s \<and> write_faults buf count"
    by (auto simp: my_write_def locked_def Let_def write_faults_def copy_from_user_def)
  from r1 w1 r2 w2 r3 w3 r4 w4 show ?thesis by blast
qed

text \<open>
  The claim as first stated, "succeeds if and only if unlocked", fails: with the
  vault unlocked and "hello" stored, a read of 5 bytes into a bad user pointer
  does not succeed.
\<close>

theorem access_gate_counterexample:
  "\<not> (succeeded (retval (my_read hello_vault False [] 5 0)) \<longleftrightarrow> \<not> locked hello_vault)"
  by (simp add: hello_vault_eq my_read_def copy_to_user_def succeeded_def locked_def)

section \<open>Reading\<close>

text \<open>
  C7. A read of \<open>count\<close> bytes at position \<open>ppos\<close>, made while the vault is unlocked
  by a caller whose buffer holds \<open>count\<close> bytes: at or past the end of the secret
  it returns 0 bytes, which is end-of-data and not an error; before the end it
  returns exactly \<open>min count (secret_len - ppos)\<close> bytes, and they are the bytes of
  the secret from position \<open>ppos\<close> on.
\<close>

theorem read_returns_slice:
  assumes "\<not> locked s" "vault_wf s" "unat count \<le> length buf"
  shows "retval (my_read s False buf count ppos)
           = Inr (if secret_len s \<le> ppos then 0 else min count (secret_len s - ppos))
       \<and> returned_bytes (my_read s False buf count ppos)
           = (if secret_len s \<le> ppos then []
              else take (min (unat count) (unat (secret_len s) - unat ppos))
                     (drop (unat ppos) (secret s)))
       \<and> length (returned_bytes (my_read s False buf count ppos))
           = (if secret_len s \<le> ppos then 0
              else min (unat count) (unat (secret_len s) - unat ppos))"
  using assms by (rule read_slice)

theorem read_returns_slice_witness:
  "\<not> locked hello_vault \<and> vault_wf hello_vault
   \<and> unat (10 :: size_t) \<le> length (replicate 10 (0 :: byte))
   \<and> retval (my_read hello_vault False (replicate 10 0) 10 3) = Inr 2
   \<and> returned_bytes (my_read hello_vault False (replicate 10 0) 10 3) = [108, 111]
   \<and> retval (my_read hello_vault False (replicate 10 0) 10 5) = Inr 0"
proof -
  have h3: "unat (10 :: size_t) \<le> length (replicate 10 (0 :: byte))" by simp
  have len: "secret_len hello_vault = 5" by (simp add: hello_vault_eq)
  show ?thesis
    using read_returns_slice [OF hello_vault_unlocked wf_hello_vault h3, of 3]
      read_returns_slice [OF hello_vault_unlocked wf_hello_vault h3, of 5]
      hello_vault_unlocked wf_hello_vault
    by (simp add: len secret_hello_vault hello_def)
qed

text \<open>
  C8 (as amended). A read never changes the driver's state: buffer, length, lock
  flag and timer are what they were, whether the read succeeds, hits end-of-data,
  is denied, is interrupted or faults. It does move the file position: a read
  that returns \<open>n\<close> bytes advances \<^verbatim>\<open>*ppos\<close> by \<open>n\<close>, and every other read leaves it
  alone. Two identical reads at the same position return the same result and the
  same bytes when no write came between them and the vault is in the same lock
  state (locked or unlocked) at both; more generally, whenever the two states
  agree on the buffer, the length and the lock state.
\<close>

theorem read_frame:
  "state (my_read s i buf count ppos) = s
   \<and> fpos (my_read s i buf count ppos)
       = (case retval (my_read s i buf count ppos) of Inl e \<Rightarrow> ppos | Inr n \<Rightarrow> ppos + n)
   \<and> my_read (state (my_read s i buf count ppos)) i buf count ppos
       = my_read s i buf count ppos
   \<and> (list_all non_write_event evs \<and> (locked (run HZ s evs) \<longleftrightarrow> locked s)
        \<longrightarrow> my_read (run HZ (state (my_read s i buf count ppos)) evs) i buf count ppos
              = (my_read s i buf count ppos)\<lparr>state := run HZ s evs\<rparr>
          \<and> returned_bytes (my_read (run HZ (state (my_read s i buf count ppos)) evs)
                               i buf count ppos)
              = returned_bytes (my_read s i buf count ppos))
   \<and> (secret_buf s' = secret_buf s \<and> secret_len s' = secret_len s \<and> (locked s' \<longleftrightarrow> locked s)
        \<longrightarrow> my_read s' i buf count ppos = (my_read s i buf count ppos)\<lparr>state := s'\<rparr>
          \<and> returned_bytes (my_read s' i buf count ppos)
              = returned_bytes (my_read s i buf count ppos))"
proof -
  have fp: "fpos (my_read s i buf count ppos)
       = (case retval (my_read s i buf count ppos) of Inl e \<Rightarrow> ppos | Inr n \<Rightarrow> ppos + n)"
    by (simp add: my_read_def Let_def split: prod.splits)
  have bytes: "returned_bytes (r\<lparr>state := t\<rparr>) = returned_bytes r" for r :: rw_result and t
    by (simp add: returned_bytes_def split: sum.splits)
  have same: "my_read t i buf count ppos = (my_read s i buf count ppos)\<lparr>state := t\<rparr>
          \<and> returned_bytes (my_read t i buf count ppos)
              = returned_bytes (my_read s i buf count ppos)"
    if "secret_buf t = secret_buf s" "secret_len t = secret_len s" "locked t \<longleftrightarrow> locked s"
    for t
    using my_read_cong [OF that, of i buf count ppos] by (simp add: bytes)
  have again: "my_read (run HZ s evs) i buf count ppos
                 = (my_read s i buf count ppos)\<lparr>state := run HZ s evs\<rparr>
          \<and> returned_bytes (my_read (run HZ s evs) i buf count ppos)
              = returned_bytes (my_read s i buf count ppos)"
    if "list_all non_write_event evs" "locked (run HZ s evs) \<longleftrightarrow> locked s"
  proof (rule same)
    from run_non_write_frame [OF that(1), of HZ s]
    show "secret_buf (run HZ s evs) = secret_buf s"
      and "secret_len (run HZ s evs) = secret_len s"
      by simp_all
    from that(2) show "locked (run HZ s evs) \<longleftrightarrow> locked s" .
  qed
  show ?thesis unfolding state_my_read using fp again same [of s'] by blast
qed

theorem read_frame_witness:
  "list_all non_write_event
     [Read False [0, 0] 2 0, Ioctl IOCTL_UNLOCK_VAULT (Some VAULT_PIN) 200, Timer 300]
   \<and> (locked (run 250 hello_vault
         [Read False [0, 0] 2 0, Ioctl IOCTL_UNLOCK_VAULT (Some VAULT_PIN) 200, Timer 300])
       \<longleftrightarrow> locked hello_vault)
   \<and> secret_buf (mod_timer hello_vault 9000) = secret_buf hello_vault
   \<and> secret_len (mod_timer hello_vault 9000) = secret_len hello_vault
   \<and> (locked (mod_timer hello_vault 9000) \<longleftrightarrow> locked hello_vault)
   \<and> returned_bytes (my_read hello_vault False [0, 0] 2 0) = [104, 101]
   \<and> returned_bytes (my_read (run 250 (state (my_read hello_vault False [0, 0] 2 0))
         [Read False [0, 0] 2 0, Ioctl IOCTL_UNLOCK_VAULT (Some VAULT_PIN) 200, Timer 300])
         False [0, 0] 2 0) = [104, 101]
   \<and> returned_bytes (my_read (mod_timer hello_vault 9000) False [0, 0] 2 0) = [104, 101]"
proof -
  let ?evs = "[Read False [0, 0] 2 0, Ioctl IOCTL_UNLOCK_VAULT (Some VAULT_PIN) 200, Timer 300]"
  let ?t = "mod_timer hello_vault 9000"
  have h1: "list_all non_write_event ?evs" by simp
  have h2: "locked (run 250 hello_vault ?evs) \<longleftrightarrow> locked hello_vault"
    by (simp add: run_def state_my_read my_ioctl_unlock run_timers_def time_after_eq_def
        locked_def hello_vault_eq)
  have h3: "secret_buf ?t = secret_buf hello_vault" "secret_len ?t = secret_len hello_vault"
    "locked ?t \<longleftrightarrow> locked hello_vault"
    by (simp_all add: mod_timer_def locked_def)
  have b: "returned_bytes (my_read hello_vault False [0, 0] 2 0) = [104, 101]"
    by (simp add: hello_vault_eq my_read_def copy_to_user_def returned_bytes_def hello_def)
  from read_frame [of hello_vault False "[0, 0]" 2 0 ?evs 250 ?t] h1 h2 h3
  have "returned_bytes (my_read (run 250 (state (my_read hello_vault False [0, 0] 2 0)) ?evs)
          False [0, 0] 2 0) = returned_bytes (my_read hello_vault False [0, 0] 2 0)"
    and "returned_bytes (my_read ?t False [0, 0] 2 0)
          = returned_bytes (my_read hello_vault False [0, 0] 2 0)"
    by blast+
  with h1 h2 h3 b show ?thesis by simp
qed

text \<open>
  The claim as first stated fails on the file position: with "hello" stored, a
  read of 2 bytes at position 0 leaves the position at 2, and the same call
  repeated on the file returns other bytes.
\<close>

theorem read_frame_counterexample:
  "fpos (my_read hello_vault False [0, 0] 2 0) \<noteq> 0
   \<and> returned_bytes (my_read (state (my_read hello_vault False [0, 0] 2 0)) False [0, 0] 2
                        (fpos (my_read hello_vault False [0, 0] 2 0)))
     \<noteq> returned_bytes (my_read hello_vault False [0, 0] 2 0)"
  by (simp add: hello_vault_eq my_read_def copy_to_user_def returned_bytes_def hello_def)

section \<open>Writing\<close>

text \<open>
  C2. For every byte sequence \<open>X\<close> of at most \<^verbatim>\<open>MAX_SECRET\<close> (4096) bytes, written
  while the vault is unlocked: the write reports \<open>length X\<close> bytes and resets the
  file position to 0, and a read of \<open>length X\<close> bytes that follows at once, from
  that position and into a buffer of that size, returns exactly \<open>X\<close>.
\<close>

theorem write_read_roundtrip:
  assumes "\<not> locked s" "length X = unat count" "count \<le> MAX_SECRET"
    and "unat count \<le> length rbuf"
  shows "retval (my_write s False X count ppos) = Inr count
       \<and> fpos (my_write s False X count ppos) = 0
       \<and> retval (my_read (state (my_write s False X count ppos)) False rbuf count
                   (fpos (my_write s False X count ppos))) = Inr count
       \<and> returned_bytes (my_read (state (my_write s False X count ppos)) False rbuf count
                   (fpos (my_write s False X count ppos))) = X"
proof -
  have m: "min count MAX_SECRET = count" using assms(3) by (simp add: min_absorb1)
  have fits: "unat (min count MAX_SECRET) \<le> length X" using assms(2) m by simp
  let ?s1 = "s\<lparr>secret_buf := X @ drop (unat count) (secret_buf s), secret_len := count\<rparr>"
  have wr: "my_write s False X count ppos
              = \<lparr>retval = Inr count, state = ?s1, user_mem = X, fpos = 0\<rparr>"
    using my_write_ok [OF assms(1) fits, of ppos] assms(2) by (simp add: m)
  have unl: "\<not> locked ?s1" using assms(1) by (simp add: locked_def)
  have "\<exists>ub p. my_read ?s1 False rbuf count 0
                    = \<lparr>retval = Inr count, state = ?s1, user_mem = ub, fpos = p\<rparr>
                \<and> take (unat count) ub = X"
  proof (cases "count = 0")
    case True
    have "my_read ?s1 False rbuf count 0
            = \<lparr>retval = Inr 0, state = ?s1, user_mem = rbuf, fpos = 0\<rparr>"
      using True unl by (intro my_read_eof) simp_all
    then show ?thesis using True assms(2) by simp
  next
    case False
    then have lt: "0 < secret_len ?s1" by (simp add: word_gt_0)
    have fits2: "unat (min count (secret_len ?s1 - 0)) \<le> length rbuf"
      using assms(4) by simp
    have "my_read ?s1 False rbuf count 0
                = \<lparr>retval = Inr count, state = ?s1,
                   user_mem = X @ drop (unat count) rbuf, fpos = count\<rparr>"
      using my_read_ok [OF unl lt fits2] assms(2) by simp
    then show ?thesis using assms(2) by simp
  qed
  then obtain ub p where
    rd: "my_read ?s1 False rbuf count 0
           = \<lparr>retval = Inr count, state = ?s1, user_mem = ub, fpos = p\<rparr>"
    and ub: "take (unat count) ub = X" by blast
  show ?thesis unfolding wr using ub by (simp add: rd returned_bytes_def)
qed

theorem write_read_roundtrip_witness:
  "\<not> locked unlocked_vault \<and> length hello = unat (5 :: size_t) \<and> (5 :: size_t) \<le> MAX_SECRET
   \<and> unat (5 :: size_t) \<le> length (replicate 5 (0 :: byte))
   \<and> retval (my_write unlocked_vault False hello 5 0) = Inr 5
   \<and> returned_bytes (my_read (state (my_write unlocked_vault False hello 5 0)) False
        (replicate 5 0) 5 (fpos (my_write unlocked_vault False hello 5 0))) = hello"
proof -
  have h2: "length hello = unat (5 :: size_t)" by (simp add: hello_def)
  have h3: "(5 :: size_t) \<le> MAX_SECRET" by (simp add: MAX_SECRET_def)
  have h4: "unat (5 :: size_t) \<le> length (replicate 5 (0 :: byte))" by simp
  from write_read_roundtrip [OF unlocked_vault_unlocked h2 h3 h4, of 0]
    unlocked_vault_unlocked h2 h3 h4
  show ?thesis by blast
qed

text \<open>
  C5. For every byte sequence \<open>X\<close> longer than \<^verbatim>\<open>MAX_SECRET\<close> (4096) bytes, written
  while the vault is unlocked: the write does not fail, the secret becomes
  exactly the first 4096 bytes of \<open>X\<close>, \<^verbatim>\<open>secret_len\<close> becomes 4096, and the call
  returns 4096, the truncated length, which is less than the length of the input.
\<close>

theorem write_truncates:
  assumes "\<not> locked s" "length X = unat count" "MAX_SECRET < count"
  shows "retval (my_write s False X count ppos) = Inr MAX_SECRET
       \<and> secret_len (state (my_write s False X count ppos)) = MAX_SECRET
       \<and> secret (state (my_write s False X count ppos)) = take (unat MAX_SECRET) X
       \<and> length (secret (state (my_write s False X count ppos))) = unat MAX_SECRET
       \<and> unat MAX_SECRET < length X"
proof -
  have m: "min count MAX_SECRET = MAX_SECRET" using assms(3) by (simp add: min_absorb2)
  have lt: "unat MAX_SECRET < unat count" using assms(3) by (simp add: word_less_nat_alt)
  then have fits: "unat (min count MAX_SECRET) \<le> length X" using assms(2) m by simp
  have "unat MAX_SECRET \<le> length X" using fits m by simp
  then show ?thesis
    using my_write_ok [OF assms(1) fits, of ppos] lt assms(2) by (simp add: m secret_def)
qed

theorem write_truncates_witness:
  "\<not> locked unlocked_vault \<and> length (replicate 5000 (7 :: byte)) = unat (5000 :: size_t)
   \<and> MAX_SECRET < (5000 :: size_t)
   \<and> retval (my_write unlocked_vault False (replicate 5000 7) 5000 0) = Inr MAX_SECRET
   \<and> secret (state (my_write unlocked_vault False (replicate 5000 7) 5000 0))
       = replicate 4096 7"
proof -
  have h2: "length (replicate 5000 (7 :: byte)) = unat (5000 :: size_t)" by simp
  have h3: "MAX_SECRET < (5000 :: size_t)" by (simp add: MAX_SECRET_def)
  from write_truncates [OF unlocked_vault_unlocked h2 h3, of 0] unlocked_vault_unlocked h2 h3
  show ?thesis by (simp add: unat_MAX_SECRET)
qed

section \<open>Unlocking\<close>

text \<open>
  C3. An unlock request (\<^verbatim>\<open>IOCTL_UNLOCK_VAULT\<close>) whose credential differs from
  \<^verbatim>\<open>VAULT_PIN\<close> (1337) fails with the invalid-credential error, which the driver
  reports as \<^verbatim>\<open>-EACCES\<close>, and the whole state (buffer, length, lock flag, timer
  schedule) is exactly what it was before the call.
\<close>

theorem unlock_wrong_pin:
  "c \<noteq> VAULT_PIN \<Longrightarrow> my_ioctl HZ s IOCTL_UNLOCK_VAULT (Some c) now = (Inl EACCES, s)"
  by (simp add: my_ioctl_def)

theorem unlock_wrong_pin_witness:
  "(9999 :: 32 word) \<noteq> VAULT_PIN
   \<and> my_ioctl 250 unlocked_vault IOCTL_UNLOCK_VAULT (Some 9999) 200 = (Inl EACCES, unlocked_vault)"
proof -
  have h: "(9999 :: 32 word) \<noteq> VAULT_PIN" by (simp add: VAULT_PIN_def)
  show ?thesis using h unlock_wrong_pin [OF h] by simp
qed

text \<open>
  C4. A successful unlock at time \<open>t\<close> (in jiffies) unlocks the vault and sets the
  one timer to expire at \<open>t\<close> plus 30 seconds, which is \<open>30 * HZ\<close> jiffies, whatever
  the timer was before: a schedule pending from an earlier unlock is replaced,
  not added to. After two unlocks the pending expiry is the one of the second,
  and the timer interrupt locks the vault exactly when the deadline of the
  latest unlock has been reached.
\<close>

theorem unlock_arms_single_deadline:
  "my_ioctl HZ s IOCTL_UNLOCK_VAULT (Some VAULT_PIN) t
     = (Inr 0, s\<lparr>is_unlocked := 1, lock_timer := Some (t + of_nat (30 * HZ))\<rparr>)
   \<and> lock_timer (snd (my_ioctl HZ (snd (my_ioctl HZ s IOCTL_UNLOCK_VAULT (Some VAULT_PIN) t))
                          IOCTL_UNLOCK_VAULT (Some VAULT_PIN) t'))
       = Some (t' + of_nat (30 * HZ))
   \<and> run_timers (snd (my_ioctl HZ s IOCTL_UNLOCK_VAULT (Some VAULT_PIN) t)) now
       = (if time_after_eq now (t + of_nat (30 * HZ))
          then s\<lparr>is_unlocked := 0, lock_timer := None\<rparr>
          else s\<lparr>is_unlocked := 1, lock_timer := Some (t + of_nat (30 * HZ))\<rparr>)"
  by (simp add: my_ioctl_unlock run_timers_def auto_lock_callback_def)

section \<open>The lock flag, the timer and the secret\<close>

text \<open>
  C6 (as amended). In every state reached from the initial one by unlock
  requests, reads, writes and timer expiries, each expiry running to its end
  (timer off the schedule, callback run) before the next operation, the vault is
  locked if and only if no expiry is pending; such an expiry is the two halves
  one after the other. When file operations come between the two halves of an
  expiry, in any order, one direction is kept in every state reached: an
  unlocked vault has an expiry pending or a callback still to run. Module exit
  is the exception to both: it deletes the timer and leaves the lock flag as it
  is, so after it no expiry is pending whether the vault was locked or not.
\<close>

theorem lock_iff_no_deadline:
  assumes "Exit \<notin> set evs"
  shows "(locked (run HZ vault_init evs) \<longleftrightarrow> lock_timer (run HZ vault_init evs) = None)
       \<and> lock_timer (secret_exit (run HZ vault_init evs)) = None
       \<and> is_unlocked (secret_exit (run HZ vault_init evs)) = is_unlocked (run HZ vault_init evs)
       \<and> run_callback (expire_timer (s, 0) now) = (run_timers s now, 0)
       \<and> (\<not> locked (fst (interleave HZ (vault_init, 0) acts))
            \<longrightarrow> lock_timer (fst (interleave HZ (vault_init, 0) acts)) \<noteq> None
                \<or> 0 < snd (interleave HZ (vault_init, 0) acts))"
proof -
  have a: "(locked (run HZ vault_init evs) \<longleftrightarrow> lock_timer (run HZ vault_init evs) = None)"
    using lock_inv_run [OF lock_inv_init assms, of HZ] by (simp add: lock_inv_def)
  have b: "relock_due (interleave HZ (vault_init, 0) acts)"
    by (rule relock_due_interleave [OF relock_due_init])
  have c: "\<not> locked (fst (interleave HZ (vault_init, 0) acts))
            \<longrightarrow> lock_timer (fst (interleave HZ (vault_init, 0) acts)) \<noteq> None
                \<or> 0 < snd (interleave HZ (vault_init, 0) acts)"
    using b by (auto simp: relock_due_def)
  have d: "lock_timer (secret_exit (run HZ vault_init evs)) = None
       \<and> is_unlocked (secret_exit (run HZ vault_init evs)) = is_unlocked (run HZ vault_init evs)"
    by (simp add: secret_exit_def timer_delete_sync_def)
  from a c d expire_then_callback [of s now] show ?thesis by blast
qed

theorem lock_iff_no_deadline_witness:
  "Exit \<notin> set [Ioctl IOCTL_UNLOCK_VAULT (Some VAULT_PIN) 100, Write False hello 5 0,
                 Timer 200, Timer 7600]
   \<and> locked (run 250 vault_init
        [Ioctl IOCTL_UNLOCK_VAULT (Some VAULT_PIN) 100, Write False hello 5 0,
         Timer 200, Timer 7600])
   \<and> lock_timer (run 250 vault_init
        [Ioctl IOCTL_UNLOCK_VAULT (Some VAULT_PIN) 100, Write False hello 5 0,
         Timer 200, Timer 7600]) = None
   \<and> \<not> locked (fst (interleave 250 (vault_init, 0)
        [AIoctl IOCTL_UNLOCK_VAULT (Some VAULT_PIN) 100, AExpire 7600]))
   \<and> 0 < snd (interleave 250 (vault_init, 0)
        [AIoctl IOCTL_UNLOCK_VAULT (Some VAULT_PIN) 100, AExpire 7600])"
proof -
  let ?acts = "[AIoctl IOCTL_UNLOCK_VAULT (Some VAULT_PIN) 100, AExpire 7600]"
  have h: "Exit \<notin> set [Ioctl IOCTL_UNLOCK_VAULT (Some VAULT_PIN) 100, Write False hello 5 0,
                         Timer 200, Timer 7600]"
    by simp
  have t: "lock_timer (run 250 vault_init
        [Ioctl IOCTL_UNLOCK_VAULT (Some VAULT_PIN) 100, Write False hello 5 0,
         Timer 200, Timer 7600]) = None"
    by (simp add: run_def my_ioctl_unlock my_write_lock_fields run_timers_def
        time_after_eq_def auto_lock_callback_def)
  have u: "\<not> locked (fst (interleave 250 (vault_init, 0) ?acts))"
    "lock_timer (fst (interleave 250 (vault_init, 0) ?acts)) = None"
    by (simp_all add: interleave_def my_ioctl_unlock expire_timer_def time_after_eq_def
        locked_def)
  from lock_iff_no_deadline [OF h, of 250 _ _ ?acts] h t u show ?thesis by simp
qed

text \<open>
  The claim as first stated, with module exit among the operations, fails: after
  an unlock and the exit the vault is unlocked and no expiry is pending.
\<close>

theorem lock_iff_no_deadline_counterexample:
  "\<not> (locked (run 250 vault_init [Ioctl IOCTL_UNLOCK_VAULT (Some VAULT_PIN) 100, Exit])
       \<longleftrightarrow> lock_timer (run 250 vault_init
              [Ioctl IOCTL_UNLOCK_VAULT (Some VAULT_PIN) 100, Exit]) = None)"
  by (simp add: run_def my_ioctl_unlock secret_exit_def timer_delete_sync_def locked_def)

text \<open>
  C9 (as amended). Module exit deletes the timer and does nothing else to the
  vault: afterwards no expiry is pending, so no timer interrupt runs the
  callback any more, and the lock flag, the buffer and the length are what they
  were. The vault is locked after the exit only if it was locked before.
\<close>

theorem exit_cancels_timer:
  "lock_timer (secret_exit s) = None
   \<and> run_timers (secret_exit s) now = secret_exit s
   \<and> is_unlocked (secret_exit s) = is_unlocked s
   \<and> secret_buf (secret_exit s) = secret_buf s
   \<and> secret_len (secret_exit s) = secret_len s
   \<and> (locked (secret_exit s) \<longleftrightarrow> locked s)"
  by (simp add: secret_exit_def timer_delete_sync_def run_timers_def locked_def)

text \<open>
  The claim as first stated fails: the exit of an unlocked vault leaves it
  unlocked.
\<close>

theorem exit_cancels_timer_counterexample:
  "\<not> locked (secret_exit unlocked_vault)"
  by (simp add: unlocked_vault_eq secret_exit_def timer_delete_sync_def locked_def)

text \<open>
  C10. No change of the lock state touches the secret: the timer's callback and
  every ioctl, accepted or rejected, leave the buffer and the length as they
  are, and so does any sequence of timer interrupts and ioctls. Hence the secret
  held before the vault locks again is there, byte for byte, after the next
  successful unlock, and a read of its length from position 0 returns it.
\<close>

theorem relock_keeps_secret:
  assumes "list_all lock_event evs" "vault_wf s" "unat (secret_len s) \<le> length rbuf"
  shows "secret_buf (run HZ s evs) = secret_buf s \<and> secret_len (run HZ s evs) = secret_len s
       \<and> secret_buf (auto_lock_callback s) = secret_buf s
       \<and> secret_len (auto_lock_callback s) = secret_len s
       \<and> secret_buf (run_timers s now) = secret_buf s
       \<and> secret_len (run_timers s now) = secret_len s
       \<and> secret_buf (snd (my_ioctl HZ s cmd arg now)) = secret_buf s
       \<and> secret_len (snd (my_ioctl HZ s cmd arg now)) = secret_len s
       \<and> secret (snd (my_ioctl HZ (run HZ s evs) IOCTL_UNLOCK_VAULT (Some VAULT_PIN) now))
           = secret s
       \<and> returned_bytes
           (my_read (snd (my_ioctl HZ (run HZ s evs) IOCTL_UNLOCK_VAULT (Some VAULT_PIN) now))
              False rbuf (secret_len s) 0) = secret s"
proof -
  let ?s2 = "run HZ s evs"
  let ?s3 = "snd (my_ioctl HZ ?s2 IOCTL_UNLOCK_VAULT (Some VAULT_PIN) now)"
  from assms(1) have "\<forall>e\<in>set evs. lock_event e" by (simp add: list_all_iff)
  then have fr: "secret_buf ?s2 = secret_buf s" "secret_len ?s2 = secret_len s"
    using run_lock_events_frame [of evs HZ s] by simp_all
  have fr3: "secret_buf ?s3 = secret_buf s" "secret_len ?s3 = secret_len s"
    by (simp_all add: my_ioctl_frame fr)
  have sec: "secret ?s3 = secret s" by (simp add: secret_def fr3)
  have unl: "\<not> locked ?s3" by (simp add: my_ioctl_unlock locked_def)
  have wf3: "vault_wf ?s3" using assms(2) by (simp add: vault_wf_def fr3)
  have len: "length (secret s) = unat (secret_len s)"
    using assms(2) by (simp add: secret_def vault_wf_def word_le_nat_alt)
  have "returned_bytes (my_read ?s3 False rbuf (secret_len s) 0)
          = (if secret_len ?s3 \<le> 0 then []
             else take (min (unat (secret_len s)) (unat (secret_len ?s3) - unat (0 :: loff_t)))
                    (drop (unat (0 :: loff_t)) (secret ?s3)))"
    using read_slice [OF unl wf3 assms(3), of 0] by simp
  also have "\<dots> = secret s"
    using len by (cases "secret_len s = 0") (simp_all add: fr3 sec)
  finally have rd: "returned_bytes (my_read ?s3 False rbuf (secret_len s) 0) = secret s" .
  show ?thesis
    using fr sec rd by (simp add: my_ioctl_frame run_timers_frame auto_lock_callback_def)
qed

theorem relock_keeps_secret_witness:
  "list_all lock_event [Timer 7600, Ioctl IOCTL_UNLOCK_VAULT (Some 9999) 7700]
   \<and> vault_wf hello_vault \<and> unat (secret_len hello_vault) \<le> length (replicate 5 (0 :: byte))
   \<and> locked (run 250 hello_vault [Timer 7600, Ioctl IOCTL_UNLOCK_VAULT (Some 9999) 7700])
   \<and> returned_bytes (my_read (snd (my_ioctl 250
          (run 250 hello_vault [Timer 7600, Ioctl IOCTL_UNLOCK_VAULT (Some 9999) 7700])
          IOCTL_UNLOCK_VAULT (Some VAULT_PIN) 8000)) False (replicate 5 0)
          (secret_len hello_vault) 0) = hello"
proof -
  have h1: "list_all lock_event [Timer 7600, Ioctl IOCTL_UNLOCK_VAULT (Some 9999) 7700]"
    by simp
  have h3: "unat (secret_len hello_vault) \<le> length (replicate 5 (0 :: byte))"
    by (simp add: hello_vault_eq)
  have lk: "locked (run 250 hello_vault [Timer 7600, Ioctl IOCTL_UNLOCK_VAULT (Some 9999) 7700])"
    by (simp add: run_def hello_vault_eq run_timers_def time_after_eq_def
        auto_lock_callback_def my_ioctl_def VAULT_PIN_def locked_def)
  from relock_keeps_secret [OF h1 wf_hello_vault h3, where HZ = 250 and now = 8000]
    h1 wf_hello_vault h3 lk
  show ?thesis by (simp add: secret_hello_vault)
qed

end
